theory Spec2Isabelle
  imports Complex_Main
begin

section \<open>Cart-pole simulator and REINFORCE training loop\<close>

text \<open>
  A shallow embedding of the cart-pole demo: the simulator \<open>CartPole\<close>, the policy
  network's training loop with its reward processing and gradient aggregation, and the
  validation done by the control panel before training starts.

  JavaScript numbers are modelled as the reals: the results below are about the arithmetic
  the code writes down, not about its rounding.
\<close>

subsection \<open>The simulator\<close>

text \<open>
  The class \<open>CartPole\<close>: twelve constants set by the constructor and the four
  control-theory state variables. The field \<open>length\<close> of the source is \<open>length_pole\<close>
  here, and the state variables carry the suffix \<open>_cp\<close>.
\<close>

record CartPole =
  gravity :: real
  massCart :: real
  massPole :: real
  totalMass :: real
  cartWidth :: real
  cartHeight :: real
  length_pole :: real
  poleMoment :: real
  forceMag :: real
  tau :: real
  xThreshold :: real
  thetaThreshold :: real
  x_cp :: real
  xDot_cp :: real
  theta_cp :: real
  thetaDot_cp :: real

text \<open>
  The constructor. Its four arguments are the four results of \<open>Math.random()\<close>, in the
  order the constructor draws them.
\<close>

definition CartPole_new :: "real \<Rightarrow> real \<Rightarrow> real \<Rightarrow> real \<Rightarrow> CartPole" where
  "CartPole_new r1 r2 r3 r4 =
     \<lparr> gravity = 9.8,
       massCart = 1.0,
       massPole = 0.1,
       totalMass = 1.0 + 0.1,
       cartWidth = 0.2,
       cartHeight = 0.1,
       length_pole = 0.5,
       poleMoment = 0.1 * 0.5,
       forceMag = 10.0,
       tau = 0.02,
       xThreshold = 2.4,
       thetaThreshold = (12 / 360) * 2 * pi,
       x_cp = r1 - 0.5,
       xDot_cp = (r2 - 0.5) * 1,
       theta_cp = (r3 - 0.5) * 2 * ((6 / 360) * 2 * pi),
       thetaDot_cp = (r4 - 0.5) * 0.5 \<rparr>"

definition setRandomState :: "real \<Rightarrow> real \<Rightarrow> real \<Rightarrow> real \<Rightarrow> CartPole \<Rightarrow> CartPole" where
  "setRandomState r1 r2 r3 r4 s =
     s\<lparr> x_cp := r1 - 0.5,
        xDot_cp := (r2 - 0.5) * 1,
        theta_cp := (r3 - 0.5) * 2 * ((6 / 360) * 2 * pi),
        thetaDot_cp := (r4 - 0.5) * 0.5 \<rparr>"

definition getStateTensor :: "CartPole \<Rightarrow> real list list" where
  "getStateTensor s = [[x_cp s, xDot_cp s, theta_cp s, thetaDot_cp s]]"

definition isDone :: "CartPole \<Rightarrow> bool" where
  "isDone s =
     (x_cp s < - xThreshold s \<or>
      x_cp s > xThreshold s \<or>
      theta_cp s < - thetaThreshold s \<or>
      theta_cp s > thetaThreshold s)"

text \<open>The locals of \<open>update\<close>, one definition each, in the order of the source.\<close>

definition force_of :: "CartPole \<Rightarrow> real \<Rightarrow> real" where
  "force_of s action = (if action > 0 then forceMag s else - forceMag s)"

definition temp_of :: "CartPole \<Rightarrow> real \<Rightarrow> real" where
  "temp_of s action =
     (force_of s action
        + poleMoment s * thetaDot_cp s * thetaDot_cp s * sin (theta_cp s))
     / totalMass s"

definition thetaAcc_of :: "CartPole \<Rightarrow> real \<Rightarrow> real" where
  "thetaAcc_of s action =
     (gravity s * sin (theta_cp s) - cos (theta_cp s) * temp_of s action)
     / (length_pole s
          * (4 / 3 - (massPole s * cos (theta_cp s) * cos (theta_cp s)) / totalMass s))"

definition xAcc_of :: "CartPole \<Rightarrow> real \<Rightarrow> real" where
  "xAcc_of s action =
     temp_of s action
       - (poleMoment s * thetaAcc_of s action * cos (theta_cp s)) / totalMass s"

text \<open>
  \<open>update\<close>: the four assignments all read the state before the step (the accelerations
  are computed first, and each assignment writes a field that no later one reads), then
  \<open>isDone\<close> is evaluated on the new state. The result is the flag and the new state.
\<close>

definition update :: "real \<Rightarrow> CartPole \<Rightarrow> bool \<times> CartPole" where
  "update action s =
     (let thetaAcc = thetaAcc_of s action;
          xAcc = xAcc_of s action;
          s1 = s\<lparr> x_cp := x_cp s + tau s * xDot_cp s \<rparr>;
          s2 = s1\<lparr> xDot_cp := xDot_cp s1 + tau s1 * xAcc \<rparr>;
          s3 = s2\<lparr> theta_cp := theta_cp s2 + tau s2 * thetaDot_cp s2 \<rparr>;
          s4 = s3\<lparr> thetaDot_cp := thetaDot_cp s3 + tau s3 * thetaAcc \<rparr>
      in (isDone s4, s4))"

text \<open>
  A simulator object is one made by the constructor and changed only by
  \<open>setRandomState\<close> and \<open>update\<close>; its constants are the constructor's.
\<close>

definition constants_ok :: "CartPole \<Rightarrow> bool" where
  "constants_ok s =
     (gravity s = 9.8 \<and> massCart s = 1.0 \<and> massPole s = 0.1 \<and> totalMass s = 1.1 \<and>
      cartWidth s = 0.2 \<and> cartHeight s = 0.1 \<and> length_pole s = 0.5 \<and>
      poleMoment s = 0.05 \<and> forceMag s = 10 \<and> tau s = 0.02 \<and>
      xThreshold s = 2.4 \<and> thetaThreshold s = pi / 15)"

subsection \<open>The simulator and \<open>Math.random\<close>\<close>

text \<open>
  Every method of the class runs where \<open>Math.random\<close> can be called. The runtime is the
  sequence of results that \<open>Math.random\<close> will return from now on, together with the
  simulator object; a call of \<open>Math.random\<close> returns the head of the sequence and
  leaves the tail.
\<close>

record runtime =
  random_stream :: "nat \<Rightarrow> real"
  simulator :: CartPole

definition Math_random :: "runtime \<Rightarrow> real \<times> runtime" where
  "Math_random w = (random_stream w 0, w\<lparr> random_stream := (\<lambda>n. random_stream w (Suc n)) \<rparr>)"

text \<open>\<open>setRandomState\<close> in the runtime: four calls of \<open>Math.random\<close>, in this order.\<close>

definition setRandomState_rt :: "runtime \<Rightarrow> runtime" where
  "setRandomState_rt w =
     (let (r1, w1) = Math_random w;
          (r2, w2) = Math_random w1;
          (r3, w3) = Math_random w2;
          (r4, w4) = Math_random w3
      in w4\<lparr> simulator := setRandomState r1 r2 r3 r4 (simulator w4) \<rparr>)"




subsection \<open>The System interface\<close>

text \<open>
  The abstract class \<open>System\<close> that the training loop is written against, as a record
  of its three methods. \<open>'r\<close> is the source of random numbers, which
  \<open>setRandomState\<close> and the policy consume.
\<close>

record ('s, 'o, 'r) System =
  sys_setRandomState :: "'r \<Rightarrow> 's \<Rightarrow> 's \<times> 'r"
  sys_getStateTensor :: "'s \<Rightarrow> 'o"
  sys_update :: "real \<Rightarrow> 's \<Rightarrow> bool \<times> 's"

text \<open>\<open>CartPole\<close> as a \<open>System\<close>; the random source is the sequence of future draws.\<close>

definition CartPole_System :: "(CartPole, real list list, nat \<Rightarrow> real) System" where
  "CartPole_System =
     \<lparr> sys_setRandomState =
         (\<lambda>r s. (setRandomState (r 0) (r 1) (r 2) (r 3) s, (\<lambda>n. r (n + 4)))),
       sys_getStateTensor = getStateTensor,
       sys_update = update \<rparr>"

subsection \<open>JavaScript numbers\<close>

text \<open>
  A JavaScript number as the code meets it in a form field or an argument: \<open>NaN\<close> or a
  value. A comparison with \<open>NaN\<close> is false.
\<close>

datatype jsnum = NaN | Fin real

fun gt :: "jsnum \<Rightarrow> real \<Rightarrow> bool" where
  "gt NaN c = False"
| "gt (Fin v) c = (v > c)"

fun lt :: "jsnum \<Rightarrow> real \<Rightarrow> bool" where
  "lt NaN c = False"
| "lt (Fin v) c = (v < c)"

subsection \<open>Constructing the policy network\<close>

text \<open>
  The values that reach the constructors: \<open>undefined\<close>, an instance of
  \<open>tf.LayersModel\<close>, a number, an array of numbers, or the object literal
  \<open>{layersModel, sizes}\<close> that \<open>SaveablePolicyNetwork\<close> destructures and passes on.
  \<open>'m\<close> is the type of loaded models.
\<close>

datatype hidden_sizes = Single jsnum | Many "jsnum list"

record sizes_arg =
  hiddenLayerSizes :: hidden_sizes
  inputSize :: jsnum
  outputSize :: jsnum

record 'm ctor_options =
  layersModel :: "'m option"
  sizes :: "sizes_arg option"

datatype 'm js_value =
    UndefinedV
  | LayersModelV 'm
  | NumberV jsnum
  | ArrayV "jsnum list"
  | ObjectV "'m ctor_options"

record 'm dense_args =
  units :: "'m js_value"
  activation :: "string option"
  inputShape :: "nat list option"

datatype 'm policyNet = LayersModel 'm | Sequential "'m dense_args list"

datatype ctor_error = SuperNotCalled | UnitsNotPositiveInteger | FirstLayerWithoutInputShape

text \<open>
  The two calls into TensorFlow.js that can throw. \<open>tf.layers.dense\<close> accepts as
  \<open>units\<close> a positive integer and throws for anything else. \<open>add\<close> of a sequential
  model throws when the model is empty and the layer has no input shape.
\<close>

definition dense :: "'m dense_args \<Rightarrow> ctor_error + 'm dense_args" where
  "dense args =
     (case units args of
        NumberV (Fin v) \<Rightarrow>
          if 0 < v \<and> of_int \<lfloor>v\<rfloor> = v then Inr args else Inl UnitsNotPositiveInteger
      | other \<Rightarrow> Inl UnitsNotPositiveInteger)"

definition sequential_add :: "'m dense_args list \<Rightarrow> 'm dense_args \<Rightarrow> ctor_error + 'm dense_args list" where
  "sequential_add network layer =
     (if network = [] \<and> inputShape layer = None then Inl FirstLayerWithoutInputShape
      else Inr (network @ [layer]))"

text \<open>
  The \<open>forEach\<close> of \<open>createPolicyNetwork\<close> over the sizes with their indices: each
  layer is made by \<open>tf.layers.dense\<close> and then added.
\<close>

fun addHiddenLayers ::
  "'m dense_args list \<Rightarrow> (nat \<times> 'm js_value) list \<Rightarrow> ctor_error + 'm dense_args list" where
  "addHiddenLayers network [] = Inr network"
| "addHiddenLayers network ((i, hiddenLayerSize) # rest) =
     (case dense \<lparr> units = hiddenLayerSize,
                   activation = Some ''elu'',
                   inputShape = (if i = 0 then Some [4] else None) \<rparr> of
        Inl e \<Rightarrow> Inl e
      | Inr layer \<Rightarrow>
          (case sequential_add network layer of
             Inl e \<Rightarrow> Inl e
           | Inr network' \<Rightarrow> addHiddenLayers network' rest))"

definition createPolicyNetwork :: "'m js_value \<Rightarrow> ctor_error + 'm policyNet" where
  "createPolicyNetwork hiddenLayerSizes0 =
     (let hiddenLayerSizes1 =
            (case hiddenLayerSizes0 of
               ArrayV ns \<Rightarrow> map NumberV ns
             | other \<Rightarrow> [other])
      in case addHiddenLayers [] (enumerate 0 hiddenLayerSizes1) of
           Inl e \<Rightarrow> Inl e
         | Inr network \<Rightarrow>
             (case dense \<lparr> units = NumberV (Fin 1), activation = None, inputShape = None \<rparr> of
                Inl e \<Rightarrow> Inl e
              | Inr layer \<Rightarrow>
                  (case sequential_add network layer of
                     Inl e \<Rightarrow> Inl e
                   | Inr network' \<Rightarrow> Inr (Sequential network'))))"

definition PolicyNetwork_new :: "'m js_value \<Rightarrow> ctor_error + 'm policyNet" where
  "PolicyNetwork_new hiddenLayerSizesOrModel =
     (case hiddenLayerSizesOrModel of
        LayersModelV m \<Rightarrow> Inr (LayersModel m)
      | other \<Rightarrow> createPolicyNetwork other)"

text \<open>
  The constructor of \<open>SaveablePolicyNetwork\<close>. It calls \<open>super\<close> with an object that
  holds \<open>layersModel\<close> alone, or else \<open>sizes\<close> alone. When both are \<open>undefined\<close>
  no branch is taken and \<open>super\<close> is never called; a derived constructor that returns
  without calling \<open>super\<close> raises a \<open>ReferenceError\<close> in ECMAScript, which is the
  error \<open>SuperNotCalled\<close>.
\<close>

definition SaveablePolicyNetwork_new :: "'m ctor_options \<Rightarrow> ctor_error + 'm policyNet" where
  "SaveablePolicyNetwork_new opts =
     (if layersModel opts \<noteq> None then
        PolicyNetwork_new (ObjectV \<lparr> layersModel = layersModel opts, sizes = None \<rparr>)
      else if sizes opts \<noteq> None then
        PolicyNetwork_new (ObjectV \<lparr> layersModel = None, sizes = sizes opts \<rparr>)
      else Inl SuperNotCalled)"

subsection \<open>The train button\<close>

datatype ui_error =
    InvalidIterations jsnum
  | InvalidGamesPerIteration jsnum
  | InvalidMaxStepsPerGame jsnum
  | InvalidDiscountRate jsnum

record train_config =
  cfg_trainIterations :: jsnum
  cfg_gamesPerIteration :: jsnum
  cfg_maxStepsPerGame :: jsnum
  cfg_discountRate :: jsnum
  cfg_learningRate :: jsnum

text \<open>
  The \<open>try\<close> block of the train button's click handler up to the creation of the
  optimizer. The five arguments are the parsed contents of the five form fields.
  \<open>Inr\<close> is the configuration with which \<open>tf.train.adam\<close> is called and the training
  loop is entered; \<open>Inl\<close> is the error thrown before that.
\<close>

definition trainClick :: "jsnum \<Rightarrow> jsnum \<Rightarrow> jsnum \<Rightarrow> jsnum \<Rightarrow> jsnum \<Rightarrow> ui_error + train_config" where
  "trainClick trainIterations gamesPerIteration maxStepsPerGame discountRate learningRate =
     (if \<not> gt trainIterations 0 then Inl (InvalidIterations trainIterations)
      else if \<not> gt gamesPerIteration 0 then Inl (InvalidGamesPerIteration gamesPerIteration)
      else if \<not> gt maxStepsPerGame 1 then Inl (InvalidMaxStepsPerGame maxStepsPerGame)
      else if \<not> (gt discountRate 0 \<and> lt discountRate 1) then Inl (InvalidDiscountRate discountRate)
      else Inr \<lparr> cfg_trainIterations = trainIterations,
                 cfg_gamesPerIteration = gamesPerIteration,
                 cfg_maxStepsPerGame = maxStepsPerGame,
                 cfg_discountRate = discountRate,
                 cfg_learningRate = learningRate \<rparr>)"

subsection \<open>Sampling an action and the loss whose gradient is taken\<close>

definition sigmoid :: "real \<Rightarrow> real" where
  "sigmoid v = 1 / (1 + exp (- v))"

text \<open>
  \<open>getLogitsAndActions\<close> on a batch: \<open>predict\<close> is the network, \<open>multinomial\<close> is the
  sampler of TensorFlow.js, which returns for each row of probabilities the index it drew.
\<close>

definition getLogitsAndActions ::
  "('i \<Rightarrow> real list) \<Rightarrow> (real list list \<Rightarrow> real list) \<Rightarrow> 'i \<Rightarrow> real list \<times> real list" where
  "getLogitsAndActions predict multinomial inputs =
     (let logits = predict inputs;
          leftProb = map sigmoid logits;
          leftRightProbs = map (\<lambda>p. [p, 1 - p]) leftProb;
          actions = multinomial leftRightProbs
      in (logits, actions))"

text \<open>
  The closure \<open>f\<close> of \<open>getGradientsAndSaveActions\<close>: the labels and the logits it hands
  to \<open>tf.losses.sigmoidCrossEntropy\<close>, and the actions it saves in \<open>currentActions_\<close>.
\<close>

definition lossArguments ::
  "('i \<Rightarrow> real list) \<Rightarrow> (real list list \<Rightarrow> real list) \<Rightarrow> 'i
     \<Rightarrow> (real list \<times> real list) \<times> real list" where
  "lossArguments predict multinomial inputTensor =
     (let (logits, actions) = getLogitsAndActions predict multinomial inputTensor;
          currentActions = actions;
          labels = map (\<lambda>a. 1 - a) currentActions
      in ((labels, logits), currentActions))"

definition lossClosure ::
  "(real list \<Rightarrow> real list \<Rightarrow> real) \<Rightarrow> ('i \<Rightarrow> real list) \<Rightarrow> (real list list \<Rightarrow> real list)
     \<Rightarrow> 'i \<Rightarrow> real" where
  "lossClosure sigmoidCrossEntropy predict multinomial inputTensor =
     (let (labels, logits) = fst (lossArguments predict multinomial inputTensor)
      in sigmoidCrossEntropy labels logits)"

subsection \<open>Rolling out episodes\<close>

text \<open>
  \<open>pushGradients\<close>: objects are association lists in insertion order; a key that is
  present gets the new value appended to its array, a new key gets a one-element array.
\<close>

fun pushGradient :: "string \<Rightarrow> 'g \<Rightarrow> (string \<times> 'g list) list \<Rightarrow> (string \<times> 'g list) list" where
  "pushGradient key g [] = [(key, [g])]"
| "pushGradient key g ((k, gs) # record) =
     (if k = key then (k, gs @ [g]) # record else (k, gs) # pushGradient key g record)"

definition pushGradients ::
  "(string \<times> 'g list) list \<Rightarrow> (string \<times> 'g) list \<Rightarrow> (string \<times> 'g list) list" where
  "pushGradients record gradients = fold (\<lambda>(key, g) rec. pushGradient key g rec) gradients record"

text \<open>The array recorded for a variable (empty when the variable has no entry yet).\<close>

definition recorded :: "string \<Rightarrow> (string \<times> 'g list) list \<Rightarrow> 'g list" where
  "recorded key record = (case map_of record key of None \<Rightarrow> [] | Some gs \<Rightarrow> gs)"

text \<open>
  The state of one game: the system, the random source, \<open>gameRewards\<close>,
  \<open>gameGradients\<close>, and the flags returned by \<open>update\<close> so far. The last component is
  not a variable of the source: it logs the steps taken.

  \<open>policy\<close> stands for \<open>getGradientsAndSaveActions\<close> followed by the read of
  \<open>currentActions_[0]\<close>: from the random source and the state tensor it gives the
  gradients by variable name, the action, and the random source after sampling.
\<close>

type_synonym ('s, 'r, 'g) game =
  "'s \<times> 'r \<times> real list \<times> (string \<times> 'g list) list \<times> bool list"

text \<open>
  The inner loop \<open>for (j = 0; j < maxStepsPerGame; ++j)\<close>; the numeric argument is the
  number of iterations left, \<open>maxStepsPerGame - j\<close>.
\<close>

fun gameLoop ::
  "('s, 'o, 'r) System \<Rightarrow> ('r \<Rightarrow> 'o \<Rightarrow> ((string \<times> 'g) list \<times> real) \<times> 'r) \<Rightarrow> nat
     \<Rightarrow> ('s, 'r, 'g) game \<Rightarrow> ('s, 'r, 'g) game" where
  "gameLoop cartPoleSystem policy 0 game = game"
| "gameLoop cartPoleSystem policy (Suc n) (s, r, gameRewards, gameGradients, flags) =
     (let ((gradients, action), r') = policy r (sys_getStateTensor cartPoleSystem s);
          gameGradients' = pushGradients gameGradients gradients;
          (isDone, s') = sys_update cartPoleSystem action s
      in if isDone
         then (s', r', gameRewards @ [0], gameGradients', flags @ [isDone])
         else gameLoop cartPoleSystem policy n
                (s', r', gameRewards @ [1], gameGradients', flags @ [isDone]))"

text \<open>One game: the body of the outer loop up to the end of the inner loop.\<close>

definition playGame ::
  "('s, 'o, 'r) System \<Rightarrow> ('r \<Rightarrow> 'o \<Rightarrow> ((string \<times> 'g) list \<times> real) \<times> 'r) \<Rightarrow> int
     \<Rightarrow> 's \<Rightarrow> 'r \<Rightarrow> ('s, 'r, 'g) game" where
  "playGame cartPoleSystem policy maxStepsPerGame s r =
     (let (s0, r0) = sys_setRandomState cartPoleSystem r s
      in gameLoop cartPoleSystem policy (nat maxStepsPerGame) (s0, r0, [], [], []))"

text \<open>
  The outer loop \<open>for (i = 0; i < numGames; ++i)\<close>, with \<open>allGradients\<close>,
  \<open>allRewards\<close> and \<open>gameSteps\<close>; the numeric argument is the number of games left.
\<close>

fun gamesLoop ::
  "('s, 'o, 'r) System \<Rightarrow> ('r \<Rightarrow> 'o \<Rightarrow> ((string \<times> 'g) list \<times> real) \<times> 'r) \<Rightarrow> int \<Rightarrow> nat
     \<Rightarrow> 's \<times> 'r \<times> (string \<times> 'g list list) list \<times> real list list \<times> nat list
     \<Rightarrow> 's \<times> 'r \<times> (string \<times> 'g list list) list \<times> real list list \<times> nat list" where
  "gamesLoop cartPoleSystem policy maxStepsPerGame 0 acc = acc"
| "gamesLoop cartPoleSystem policy maxStepsPerGame (Suc n) (s, r, allGradients, allRewards, gameSteps) =
     (let (s', r', gameRewards, gameGradients, flags) =
            playGame cartPoleSystem policy maxStepsPerGame s r
      in gamesLoop cartPoleSystem policy maxStepsPerGame n
           (s', r', pushGradients allGradients gameGradients,
            allRewards @ [gameRewards], gameSteps @ [length gameRewards]))"

text \<open>
  The episode as the specification describes it, step by step, for comparison with the
  loop. One step from a system state and random source: observe, ask the policy for the
  gradients and the action, apply the action. \<open>stateAfter j\<close> is the system state and
  random source after \<open>j\<close> steps; \<open>doneAt j\<close> is what \<open>update\<close> returns in step
  \<open>j\<close> (counted from 0) and \<open>gradientsAt j\<close> what the policy returns there.
\<close>

definition episodeStep ::
  "('s, 'o, 'r) System \<Rightarrow> ('r \<Rightarrow> 'o \<Rightarrow> ((string \<times> 'g) list \<times> real) \<times> 'r) \<Rightarrow> 's \<times> 'r
     \<Rightarrow> ((string \<times> 'g) list \<times> bool) \<times> ('s \<times> 'r)" where
  "episodeStep sys policy st =
     (let ((gradients, action), r') = policy (snd st) (sys_getStateTensor sys (fst st));
          (isDone, s') = sys_update sys action (fst st)
      in ((gradients, isDone), (s', r')))"

definition stateAfter ::
  "('s, 'o, 'r) System \<Rightarrow> ('r \<Rightarrow> 'o \<Rightarrow> ((string \<times> 'g) list \<times> real) \<times> 'r) \<Rightarrow> 's \<times> 'r \<Rightarrow> nat
     \<Rightarrow> 's \<times> 'r" where
  "stateAfter sys policy st j = ((\<lambda>st'. snd (episodeStep sys policy st')) ^^ j) st"

definition doneAt ::
  "('s, 'o, 'r) System \<Rightarrow> ('r \<Rightarrow> 'o \<Rightarrow> ((string \<times> 'g) list \<times> real) \<times> 'r) \<Rightarrow> 's \<times> 'r \<Rightarrow> nat
     \<Rightarrow> bool" where
  "doneAt sys policy st j = snd (fst (episodeStep sys policy (stateAfter sys policy st j)))"

definition gradientsAt ::
  "('s, 'o, 'r) System \<Rightarrow> ('r \<Rightarrow> 'o \<Rightarrow> ((string \<times> 'g) list \<times> real) \<times> 'r) \<Rightarrow> 's \<times> 'r \<Rightarrow> nat
     \<Rightarrow> (string \<times> 'g) list" where
  "gradientsAt sys policy st j = fst (fst (episodeStep sys policy (stateAfter sys policy st j)))"

text \<open>The gradients of one variable among those returned in a step.\<close>

definition gradientsOf :: "string \<Rightarrow> (string \<times> 'g) list \<Rightarrow> 'g list" where
  "gradientsOf key gradients = map snd (filter (\<lambda>kg. fst kg = key) gradients)"

subsection \<open>Discounting and normalising rewards\<close>

text \<open>
  \<open>discountRewards\<close>: the buffer starts as zeros; the loop runs \<open>i\<close> from
  \<open>rewards.length - 1\<close> down to \<open>0\<close>. The numeric argument of the loop is \<open>i + 1\<close>.
\<close>

fun discountLoop :: "real list \<Rightarrow> real \<Rightarrow> nat \<Rightarrow> real \<Rightarrow> real list \<Rightarrow> real list" where
  "discountLoop rewards discountRate 0 prev discountedBuffer = discountedBuffer"
| "discountLoop rewards discountRate (Suc i) prev discountedBuffer =
     (let current = discountRate * prev + rewards ! i
      in discountLoop rewards discountRate i current (discountedBuffer[i := current]))"

definition discountRewards :: "real list \<Rightarrow> real \<Rightarrow> real list" where
  "discountRewards rewards discountRate =
     discountLoop rewards discountRate (length rewards) 0 (replicate (length rewards) 0)"

text \<open>\<open>tf.mean\<close> of a one-dimensional tensor.\<close>

definition mean :: "real list \<Rightarrow> real" where
  "mean vs = sum_list vs / real (length vs)"

text \<open>
  The second half of \<open>discountAndNormalizeRewards\<close>, from the concatenation on:
  \<open>tf.square\<close> is the product of a value with itself.
\<close>

definition normalizeDiscounted :: "real list list \<Rightarrow> real list list" where
  "normalizeDiscounted discounted =
     (let concatenated = concat discounted;
          mean_c = mean concatenated;
          std = sqrt (mean (map (\<lambda>v. (v - mean_c) * (v - mean_c)) concatenated))
      in map (\<lambda>rs. map (\<lambda>v. (v - mean_c) / std) rs) discounted)"

definition discountAndNormalizeRewards :: "real list list \<Rightarrow> real \<Rightarrow> real list list" where
  "discountAndNormalizeRewards rewardSequences discountRate =
     (let discounted = map (\<lambda>sequence. discountRewards sequence discountRate) rewardSequences
      in normalizeDiscounted discounted)"

subsection \<open>Scaling and averaging the gradients\<close>

text \<open>
  A gradient tensor is the list of its values; the tensors of one variable all have the
  variable's shape. Stacking the tensors of a game gives the list of them, one per step.
  The errors are those of the operations the code calls on shapes that do not fit.
\<close>

type_synonym tensor = "real list"

datatype tf_error = NoGames | NoRewards | ShapesDoNotBroadcast | NothingToConcat

text \<open>
  \<open>varGradients[g].mul(reshapedNormalizedRewards[g])\<close>: the rewards, reshaped to
  \<open>[steps, 1, ..., 1]\<close>, multiply the stacked gradients of shape \<open>[steps, ...]\<close> along
  the first axis, with broadcasting when one of the two has a single step.
\<close>

definition mulBroadcast :: "tensor list \<Rightarrow> real list \<Rightarrow> tf_error + tensor list" where
  "mulBroadcast stacked rs =
     (if length stacked = length rs then Inr (map2 (\<lambda>t a. map (\<lambda>v. v * a) t) stacked rs)
      else if length rs = 1 then Inr (map (\<lambda>t. map (\<lambda>v. v * hd rs) t) stacked)
      else if length stacked = 1 then Inr (map (\<lambda>a. map (\<lambda>v. v * a) (hd stacked)) rs)
      else Inl ShapesDoNotBroadcast)"

text \<open>The loop over \<open>g\<close>: game \<open>g\<close> is scaled by the rewards of game \<open>g\<close>.\<close>

fun scaleGames :: "tensor list list \<Rightarrow> real list list \<Rightarrow> tf_error + tensor list list" where
  "scaleGames [] normalizedRewards = Inr []"
| "scaleGames (g # gs) [] = Inl NoRewards"
| "scaleGames (g # gs) (rs # rss) =
     (case mulBroadcast g rs of
        Inl e \<Rightarrow> Inl e
      | Inr scaled \<Rightarrow>
          (case scaleGames gs rss of
             Inl e \<Rightarrow> Inl e
           | Inr rest \<Rightarrow> Inr (scaled # rest)))"

text \<open>\<open>tf.mean(t, 0)\<close> of the concatenation: the mean over the steps, value by value.\<close>

fun meanAxis0 :: "tensor list \<Rightarrow> tf_error + tensor" where
  "meanAxis0 [] = Inl NothingToConcat"
| "meanAxis0 (t # ts) =
     Inr (map (\<lambda>v. v / real (length (t # ts))) (foldl (\<lambda>acc u. map2 (+) acc u) t ts))"

definition scaleAndAverageVar :: "tensor list list \<Rightarrow> real list list \<Rightarrow> tf_error + tensor" where
  "scaleAndAverageVar varGameGradients normalizedRewards =
     (if varGameGradients = [] then Inl NoGames
      else case scaleGames varGameGradients normalizedRewards of
             Inl e \<Rightarrow> Inl e
           | Inr varGradients \<Rightarrow> meanAxis0 (concat varGradients))"

fun scaleAndAverageGradients ::
  "(string \<times> tensor list list) list \<Rightarrow> real list list \<Rightarrow> tf_error + (string \<times> tensor) list" where
  "scaleAndAverageGradients [] normalizedRewards = Inr []"
| "scaleAndAverageGradients ((varName, varGameGradients) # allGradients) normalizedRewards =
     (case scaleAndAverageVar varGameGradients normalizedRewards of
        Inl e \<Rightarrow> Inl e
      | Inr gradient \<Rightarrow>
          (case scaleAndAverageGradients allGradients normalizedRewards of
             Inl e \<Rightarrow> Inl e
           | Inr gradients \<Rightarrow> Inr ((varName, gradient) # gradients)))"

text \<open>
  \<open>train\<close>: the games, then the gradients handed to \<open>optimizer.applyGradients\<close>, and
  the returned \<open>gameSteps\<close>.
\<close>

definition train ::
  "('s, 'o, 'r) System \<Rightarrow> ('r \<Rightarrow> 'o \<Rightarrow> ((string \<times> tensor) list \<times> real) \<times> 'r) \<Rightarrow> real \<Rightarrow> int \<Rightarrow> int
     \<Rightarrow> 's \<Rightarrow> 'r \<Rightarrow> (tf_error + (string \<times> tensor) list) \<times> nat list" where
  "train cartPoleSystem policy discountRate numGames maxStepsPerGame s r =
     (let (s', r', allGradients, allRewards, gameSteps) =
            gamesLoop cartPoleSystem policy maxStepsPerGame (nat numGames) (s, r, [], [], []);
          normalizedRewards = discountAndNormalizeRewards allRewards discountRate
      in (scaleAndAverageGradients allGradients normalizedRewards, gameSteps))"


subsection \<open>Properties of the simulator\<close>

lemma constants_ok_new: "constants_ok (CartPole_new r1 r2 r3 r4)"
  by (simp add: constants_ok_def CartPole_new_def)

lemma constants_ok_setRandomState:
  "constants_ok s \<Longrightarrow> constants_ok (setRandomState r1 r2 r3 r4 s)"
  by (simp add: constants_ok_def setRandomState_def)

lemma constants_ok_update: "constants_ok s \<Longrightarrow> constants_ok (snd (update a s))"
  by (simp add: constants_ok_def update_def Let_def)

lemma cos_cos_le_one: "cos (t::real) * cos t \<le> 1"
proof -
  have "(sin t)\<^sup>2 + (cos t)\<^sup>2 = 1" by (rule sin_cos_squared_add)
  moreover have "0 \<le> (sin t)\<^sup>2" by simp
  ultimately have "(cos t)\<^sup>2 \<le> 1" by linarith
  then show ?thesis by (simp add: power2_eq_square)
qed

lemma den_pos: "0 < (0.5::real) * (4 / 3 - (0.1 * cos t * cos t) / 1.1)"
  using cos_cos_le_one[of t] by simp

lemma constants_okD:
  assumes "constants_ok s"
  shows "gravity s = 9.8" "massCart s = 1.0" "massPole s = 0.1" "totalMass s = 1.1"
    "cartWidth s = 0.2" "cartHeight s = 0.1" "length_pole s = 0.5" "poleMoment s = 0.05"
    "forceMag s = 10" "tau s = 0.02" "xThreshold s = 2.4" "thetaThreshold s = pi / 15"
  using assms unfolding constants_ok_def by blast+

text \<open>
  C4. For a simulator object and any action, \<open>update\<close> applies a force of magnitude 10,
  positive exactly when the action is greater than 0, advances the four state variables by
  one explicit Euler step of 0.02 s with the cart-pole accelerations (whose denominator is
  never zero), leaves the constants alone, and returns true exactly when the new position
  is beyond 2.4 or the new angle beyond \<open>pi / 15\<close> in absolute value. \<open>update\<close> is a
  total function into \<open>bool \<times> CartPole\<close>: it has no error result.
\<close>

theorem update_euler_step:
  assumes "constants_ok s"
  shows "(let F = (if a > 0 then 10 else - 10 :: real);
              th = theta_cp s; w = thetaDot_cp s;
              temp = (F + 0.05 * w * w * sin th) / 1.1;
              den = 0.5 * (4 / 3 - (0.1 * cos th * cos th) / 1.1);
              thetaAcc = (9.8 * sin th - cos th * temp) / den;
              xAcc = temp - (0.05 * thetaAcc * cos th) / 1.1;
              done = fst (update a s); s' = snd (update a s)
          in force_of s a = F \<and> 0 < den
             \<and> x_cp s' = x_cp s + 0.02 * xDot_cp s
             \<and> xDot_cp s' = xDot_cp s + 0.02 * xAcc
             \<and> theta_cp s' = theta_cp s + 0.02 * thetaDot_cp s
             \<and> thetaDot_cp s' = thetaDot_cp s + 0.02 * thetaAcc
             \<and> constants_ok s'
             \<and> done = (\<bar>x_cp s'\<bar> > 2.4 \<or> \<bar>theta_cp s'\<bar> > pi / 15))"
proof -
  note c = constants_okD[OF assms]
  have F: "force_of s a = (if a > 0 then 10 else - 10)"
    by (simp add: force_of_def c)
  have T: "temp_of s a = ((if a > 0 then 10 else - 10) + 0.05 * thetaDot_cp s * thetaDot_cp s * sin (theta_cp s)) / 1.1"
    unfolding temp_of_def F c by (rule refl)
  have A: "thetaAcc_of s a = (9.8 * sin (theta_cp s) - cos (theta_cp s) * temp_of s a)
      / (0.5 * (4 / 3 - (0.1 * cos (theta_cp s) * cos (theta_cp s)) / 1.1))"
    unfolding thetaAcc_of_def c by (rule refl)
  have X: "xAcc_of s a = temp_of s a - (0.05 * thetaAcc_of s a * cos (theta_cp s)) / 1.1"
    unfolding xAcc_of_def c by (rule refl)
  have D: "isDone s' = (\<bar>x_cp s'\<bar> > xThreshold s' \<or> \<bar>theta_cp s'\<bar> > thetaThreshold s')" for s'
    by (auto simp: isDone_def)
  have K: "constants_ok (snd (update a s))" by (rule constants_ok_update[OF assms])
  have S: "x_cp (snd (update a s)) = x_cp s + 0.02 * xDot_cp s"
     "xDot_cp (snd (update a s)) = xDot_cp s + 0.02 * xAcc_of s a"
     "theta_cp (snd (update a s)) = theta_cp s + 0.02 * thetaDot_cp s"
     "thetaDot_cp (snd (update a s)) = thetaDot_cp s + 0.02 * thetaAcc_of s a"
    by (simp_all add: update_def Let_def c)
  have R: "fst (update a s) = isDone (snd (update a s))"
    by (simp add: update_def Let_def)
  show ?thesis
    unfolding Let_def R D constants_okD[OF K] S X A T
    using den_pos[of "theta_cp s"] K F by simp
qed

theorem update_euler_step_witness:
  "constants_ok (CartPole_new (1/2) (1/2) (1/2) (1/2))
   \<and> force_of (CartPole_new (1/2) (1/2) (1/2) (1/2)) 1 = 10
   \<and> force_of (CartPole_new (1/2) (1/2) (1/2) (1/2)) 0 = - 10
   \<and> xDot_cp (snd (update 1 (CartPole_new (1/2) (1/2) (1/2) (1/2)))) = 8 / 41
   \<and> thetaDot_cp (snd (update 1 (CartPole_new (1/2) (1/2) (1/2) (1/2)))) = - (12 / 41)
   \<and> \<not> fst (update 1 (CartPole_new (1/2) (1/2) (1/2) (1/2)))"
proof -
  have k: "constants_ok (CartPole_new (1/2) (1/2) (1/2) (1/2))"
    by (rule constants_ok_new)
  have z: "x_cp (CartPole_new (1/2) (1/2) (1/2) (1/2)) = 0"
    "xDot_cp (CartPole_new (1/2) (1/2) (1/2) (1/2)) = 0"
    "theta_cp (CartPole_new (1/2) (1/2) (1/2) (1/2)) = 0"
    "thetaDot_cp (CartPole_new (1/2) (1/2) (1/2) (1/2)) = 0"
    by (simp_all add: CartPole_new_def)
  show ?thesis
    using k update_euler_step[OF k, of 1] update_euler_step[OF k, of 0]
    by (simp add: Let_def z)
qed


lemma setRandomState_rt_System:
  "sys_setRandomState CartPole_System (random_stream w) (simulator w)
     = (simulator (setRandomState_rt w), random_stream (setRandomState_rt w))"
  by (simp add: CartPole_System_def setRandomState_rt_def Math_random_def fun_eq_iff
      eval_nat_numeral)



text \<open>
  C10. The failure test is strict: \<open>isDone\<close> holds exactly when the position is beyond
  \<open>xThreshold\<close> or the angle beyond \<open>thetaThreshold\<close> in absolute value, so a state
  with the position or the angle exactly at its threshold, and the other one within its
  bound, is not done.
\<close>

theorem isDone_strict:
  "isDone s = (\<bar>x_cp s\<bar> > xThreshold s \<or> \<bar>theta_cp s\<bar> > thetaThreshold s)
   \<and> ((\<bar>x_cp s\<bar> = xThreshold s \<and> \<bar>theta_cp s\<bar> \<le> thetaThreshold s)
        \<or> (\<bar>theta_cp s\<bar> = thetaThreshold s \<and> \<bar>x_cp s\<bar> \<le> xThreshold s)
      \<longrightarrow> \<not> isDone s)"
  by (auto simp: isDone_def)

theorem isDone_strict_witness:
  "\<not> isDone ((CartPole_new (1/2) (1/2) (1/2) (1/2))\<lparr> x_cp := 2.4 \<rparr>)
   \<and> \<not> isDone ((CartPole_new (1/2) (1/2) (1/2) (1/2))\<lparr> x_cp := - 2.4 \<rparr>)
   \<and> \<not> isDone ((CartPole_new (1/2) (1/2) (1/2) (1/2))\<lparr> theta_cp := pi / 15 \<rparr>)
   \<and> \<not> isDone ((CartPole_new (1/2) (1/2) (1/2) (1/2))\<lparr> theta_cp := - (pi / 15) \<rparr>)
   \<and> isDone ((CartPole_new (1/2) (1/2) (1/2) (1/2))\<lparr> x_cp := 2.5 \<rparr>)"
  using isDone_strict[of "(CartPole_new (1/2) (1/2) (1/2) (1/2))\<lparr> x_cp := 2.4 \<rparr>"]
    isDone_strict[of "(CartPole_new (1/2) (1/2) (1/2) (1/2))\<lparr> x_cp := - 2.4 \<rparr>"]
    isDone_strict[of "(CartPole_new (1/2) (1/2) (1/2) (1/2))\<lparr> theta_cp := pi / 15 \<rparr>"]
    isDone_strict[of "(CartPole_new (1/2) (1/2) (1/2) (1/2))\<lparr> theta_cp := - (pi / 15) \<rparr>"]
    isDone_strict[of "(CartPole_new (1/2) (1/2) (1/2) (1/2))\<lparr> x_cp := 2.5 \<rparr>"]
  by (simp add: CartPole_new_def)

subsection \<open>Properties of the reward processing\<close>

lemma length_discountLoop:
  "length (discountLoop rs r k prev buf) = length buf"
  by (induction k arbitrary: prev buf) (simp_all add: Let_def)

lemma discountLoop_untouched:
  "k \<le> j \<Longrightarrow> discountLoop rs r k prev buf ! j = buf ! j"
  by (induction k arbitrary: prev buf) (simp_all add: Let_def)

lemma discountLoop_first_write:
  assumes "i < length buf"
  shows "discountLoop rs r (Suc i) prev buf ! i = r * prev + rs ! i"
  using assms by (simp add: Let_def discountLoop_untouched)

lemma discountLoop_step:
  "k \<le> length buf \<Longrightarrow> Suc j < k \<Longrightarrow>
     discountLoop rs r k prev buf ! j = rs ! j + r * discountLoop rs r k prev buf ! Suc j"
proof (induction k arbitrary: prev buf)
  case 0
  then show ?case by simp
next
  case (Suc i)
  let ?cur = "r * prev + rs ! i"
  let ?buf = "buf[i := ?cur]"
  have unfold: "discountLoop rs r (Suc i) prev buf = discountLoop rs r i ?cur ?buf"
    by (simp add: Let_def)
  show ?case
  proof (cases "Suc j < i")
    case True
    with Suc.IH[of ?buf ?cur] Suc.prems show ?thesis unfolding unfold by simp
  next
    case False
    with Suc.prems have i: "i = Suc j" by simp
    have a: "discountLoop rs r i ?cur ?buf ! j = r * ?cur + rs ! j"
      unfolding i using Suc.prems i by (intro discountLoop_first_write) simp
    have b: "discountLoop rs r i ?cur ?buf ! Suc j = ?cur"
    proof -
      have "discountLoop rs r i ?cur ?buf ! Suc j = ?buf ! Suc j"
        by (rule discountLoop_untouched) (simp add: i)
      also have "\<dots> = ?cur" using Suc.prems by (simp add: i)
      finally show ?thesis .
    qed
    show ?thesis unfolding unfold a b by simp
  qed
qed

lemma discountRewards_length: "length (discountRewards rs r) = length rs"
  by (simp add: discountRewards_def length_discountLoop)

lemma discountRewards_last:
  assumes "rs \<noteq> []"
  shows "discountRewards rs r ! (length rs - 1) = rs ! (length rs - 1)"
proof -
  from assms obtain n where n: "length rs = Suc n" by (cases rs) auto
  show ?thesis unfolding discountRewards_def n
    using discountLoop_first_write[of n "replicate (Suc n) 0" rs r 0] by simp
qed

lemma discountRewards_step:
  "Suc i < length rs \<Longrightarrow>
     discountRewards rs r ! i = rs ! i + r * discountRewards rs r ! Suc i"
  unfolding discountRewards_def by (rule discountLoop_step) simp_all

lemma discountRewards_ones:
  assumes "r \<noteq> 1" "m < n"
  shows "discountRewards (replicate n 1) r ! (n - 1 - m) = (1 - r ^ Suc m) / (1 - r)"
  using assms(2)
proof (induction m)
  case 0
  then have "replicate n (1::real) \<noteq> []" by auto
  from discountRewards_last[OF this, of r] 0 assms(1) show ?case by simp
next
  case (Suc m)
  then have idx: "Suc (n - 1 - Suc m) = n - 1 - m" "n - 1 - Suc m < n" "n - 1 - m < n" by auto
  have "discountRewards (replicate n 1) r ! (n - 1 - Suc m)
        = 1 + r * discountRewards (replicate n 1) r ! (n - 1 - m)"
    using discountRewards_step[of "n - 1 - Suc m" "replicate n 1" r] idx by simp
  also have "\<dots> = 1 + r * ((1 - r ^ Suc m) / (1 - r))" using Suc by simp
  also have "\<dots> = (1 - r ^ Suc (Suc m)) / (1 - r)" using assms(1) by (simp add: field_simps)
  finally show ?case .
qed

text \<open>
  C1. For a rate strictly between 0 and 1, \<open>discountRewards\<close> returns a sequence of the
  length of the rewards, whose last value is the last reward and whose value at every
  earlier index is the reward there plus the rate times the next value; on \<open>n\<close> ones,
  with \<open>n\<close> positive, the first value is \<open>(1 - r ^ n) / (1 - r)\<close>.
\<close>

theorem discountRewards_spec:
  assumes "0 < r" "r < 1"
  shows "length (discountRewards rs r) = length rs
       \<and> (rs \<noteq> [] \<longrightarrow> last (discountRewards rs r) = last rs)
       \<and> (\<forall>i. Suc i < length rs \<longrightarrow>
             discountRewards rs r ! i = rs ! i + r * discountRewards rs r ! Suc i)
       \<and> (0 < n \<longrightarrow> discountRewards (replicate n 1) r ! 0 = (1 - r ^ n) / (1 - r))"
proof -
  have "last (discountRewards rs r) = last rs" if "rs \<noteq> []"
  proof -
    have ne: "discountRewards rs r \<noteq> []"
      using that discountRewards_length[of rs r] by auto
    show ?thesis
      unfolding last_conv_nth[OF ne] last_conv_nth[OF that] discountRewards_length
      by (rule discountRewards_last[OF that])
  qed
  moreover have "discountRewards (replicate n 1) r ! 0 = (1 - r ^ n) / (1 - r)" if "0 < n"
  proof -
    from that obtain m where m: "n = Suc m" by (cases n) auto
    show ?thesis using discountRewards_ones[of r m n] assms m by simp
  qed
  moreover have "\<forall>i. Suc i < length rs \<longrightarrow>
             discountRewards rs r ! i = rs ! i + r * discountRewards rs r ! Suc i"
    using discountRewards_step by blast
  moreover note discountRewards_length[of rs r]
  ultimately show ?thesis by blast
qed

theorem discountRewards_spec_witness:
  "length (discountRewards (replicate 3 1) (1/2)) = 3
   \<and> last (discountRewards (replicate 3 1) (1/2)) = 1
   \<and> discountRewards (replicate 3 1) (1/2) ! 0
       = 1 + 1/2 * discountRewards (replicate 3 1) (1/2) ! Suc 0
   \<and> discountRewards (replicate 3 1) (1/2) ! 0 = 7 / 4"
proof -
  have r: "(0::real) < 1/2" "(1::real)/2 < 1" by simp_all
  have ne: "replicate 3 (1::real) \<noteq> []" by simp
  note t = discountRewards_spec[OF r, of "replicate 3 1" 3]
  from t have "length (discountRewards (replicate 3 1) (1/2)) = length (replicate 3 (1::real))"
    by (rule conjunct1)
  then have a: "length (discountRewards (replicate 3 1) (1/2)) = 3" by simp
  from t ne have "last (discountRewards (replicate 3 1) (1/2)) = last (replicate 3 (1::real))"
    by blast
  then have b: "last (discountRewards (replicate 3 1) (1/2)) = 1" by simp
  have "Suc 0 < length (replicate 3 (1::real))" by simp
  with t have "discountRewards (replicate 3 1) (1/2) ! 0
       = replicate 3 1 ! 0 + 1/2 * discountRewards (replicate 3 1) (1/2) ! Suc 0"
    by blast
  then have c: "discountRewards (replicate 3 1) (1/2) ! 0
       = 1 + 1/2 * discountRewards (replicate 3 1) (1/2) ! Suc 0" by simp
  have "(0::nat) < 3" by simp
  with t have "discountRewards (replicate 3 1) (1/2) ! 0 = (1 - (1/2) ^ 3) / (1 - 1/2)"
    by blast
  then have d: "discountRewards (replicate 3 1) (1/2) ! 0 = 7 / 4"
    by (simp add: power3_eq_cube)
  from a b c d show ?thesis by blast
qed

lemma sum_list_centered:
  "sum_list (map (\<lambda>v. (v - m) / sd) xs) = (sum_list xs - real (length xs) * m) / (sd::real)"
  by (induction xs) (simp_all add: field_simps add_divide_distrib diff_divide_distrib)

lemma sum_list_scaled_squares:
  "sum_list (map (\<lambda>v. ((v - m) / sd)\<^sup>2) xs) = sum_list (map (\<lambda>v. (v - m)\<^sup>2) xs) / (sd::real)\<^sup>2"
  by (induction xs) (simp_all add: power_divide add_divide_distrib)

lemma sum_list_squares_nonneg: "0 \<le> sum_list (map (\<lambda>v. (v - m)\<^sup>2) (xs::real list))"
  by (induction xs) simp_all

text \<open>
  C2. For a batch of discounted sequences whose flattened values have nonzero variance,
  \<open>normalizeDiscounted\<close> subtracts from every value the mean of the flattened values
  and divides by their population standard deviation (the sum of squared deviations is
  divided by the count); the flattened result has mean 0 and population standard
  deviation 1.
\<close>

theorem normalizeDiscounted_spec:
  assumes "sum_list (map (\<lambda>v. (v - sum_list (concat ds) / real (length (concat ds)))\<^sup>2) (concat ds))
             / real (length (concat ds)) \<noteq> 0"
  shows "(let xs = concat ds;
              m = sum_list xs / real (length xs);
              sd = sqrt (sum_list (map (\<lambda>v. (v - m)\<^sup>2) xs) / real (length xs));
              out = concat (normalizeDiscounted ds);
              m' = sum_list out / real (length out)
          in normalizeDiscounted ds = map (map (\<lambda>v. (v - m) / sd)) ds
             \<and> m' = 0
             \<and> sqrt (sum_list (map (\<lambda>v. (v - m')\<^sup>2) out) / real (length out)) = 1)"
proof -
  define xs where "xs = concat ds"
  define m where "m = sum_list xs / real (length xs)"
  define V where "V = sum_list (map (\<lambda>v. (v - m)\<^sup>2) xs) / real (length xs)"
  define sd where "sd = sqrt V"
  define out where "out = concat (normalizeDiscounted ds)"
  have V0: "V \<noteq> 0" using assms unfolding V_def m_def xs_def .
  have n0: "length xs \<noteq> 0"
  proof
    assume "length xs = 0"
    then have "V = 0" by (simp add: V_def)
    with V0 show False by simp
  qed
  have "0 \<le> V" unfolding V_def by (intro divide_nonneg_nonneg sum_list_squares_nonneg) simp
  with V0 have Vpos: "0 < V" by simp
  then have sdpos: "0 < sd" by (simp add: sd_def)
  have sd2: "sd\<^sup>2 = V" using Vpos by (simp add: sd_def)
  have mean_eq: "mean xs = m" by (simp add: mean_def m_def)
  have std_eq: "sqrt (mean (map (\<lambda>v. (v - m)\<^sup>2) xs)) = sd"
    by (simp add: mean_def sd_def V_def)
  have norm: "normalizeDiscounted ds = map (map (\<lambda>v. (v - m) / sd)) ds"
    using mean_eq std_eq
    by (simp add: normalizeDiscounted_def Let_def xs_def[symmetric] power2_eq_square)
  have out_eq: "out = map (\<lambda>v. (v - m) / sd) xs"
    unfolding out_def norm by (simp add: xs_def map_concat)
  have len: "length out = length xs" by (simp add: out_eq)
  have "sum_list out = (sum_list xs - real (length xs) * m) / sd"
    unfolding out_eq by (rule sum_list_centered)
  also have "real (length xs) * m = sum_list xs" using n0 by (simp add: m_def)
  finally have s0: "sum_list out = 0" by simp
  then have m0: "sum_list out / real (length out) = 0" by simp
  have "sum_list (map (\<lambda>v. (v - 0)\<^sup>2) out) = sum_list (map (\<lambda>v. ((v - m) / sd)\<^sup>2) xs)"
    unfolding out_eq by (simp add: comp_def)
  also have "\<dots> = sum_list (map (\<lambda>v. (v - m)\<^sup>2) xs) / sd\<^sup>2"
    by (rule sum_list_scaled_squares)
  finally have "sum_list (map (\<lambda>v. (v - 0)\<^sup>2) out) / real (length out) = V / sd\<^sup>2"
    by (simp add: len V_def)
  also have "\<dots> = 1" using V0 by (simp add: sd2)
  finally have e: "sum_list (map (\<lambda>v. (v - 0)\<^sup>2) out) / real (length out) = 1" .
  have v1: "sqrt (sum_list (map (\<lambda>v. (v - 0)\<^sup>2) out) / real (length out)) = 1"
    unfolding e by (rule real_sqrt_one)
  show ?thesis
    unfolding Let_def xs_def[symmetric] m_def[symmetric] V_def[symmetric] sd_def[symmetric]
      out_def[symmetric] m0
    by (intro conjI norm refl v1)
qed

theorem normalizeDiscounted_spec_witness:
  "normalizeDiscounted [[1], [3]] = [[- 1], [1]]
   \<and> sum_list (concat (normalizeDiscounted [[1], [3]]))
       / real (length (concat (normalizeDiscounted [[1], [3]]))) = 0
   \<and> sqrt (sum_list (map (\<lambda>v. (v - 0)\<^sup>2) (concat (normalizeDiscounted [[1], [3]])))
       / real (length (concat (normalizeDiscounted [[1], [3]])))) = 1"
proof -
  have h: "sum_list (map (\<lambda>v. (v - sum_list (concat [[1], [3]]) / real (length (concat [[1], [3::real]])))\<^sup>2)
             (concat [[1], [3]])) / real (length (concat [[1], [3::real]])) \<noteq> 0"
    by simp
  note t = normalizeDiscounted_spec[OF h]
  from t have a: "normalizeDiscounted [[1], [3]] = [[- 1], [1]]"
    by (simp add: Let_def)
  from t have b: "sum_list (concat (normalizeDiscounted [[1], [3]]))
       / real (length (concat (normalizeDiscounted [[1], [3]]))) = 0"
    unfolding Let_def by (rule conjunct1[OF conjunct2])
  from t have c: "sqrt (sum_list (map (\<lambda>v. (v - 0)\<^sup>2) (concat (normalizeDiscounted [[1], [3]])))
       / real (length (concat (normalizeDiscounted [[1], [3]])))) = 1"
    unfolding Let_def b by (rule conjunct2[OF conjunct2])
  from a b c show ?thesis by blast
qed

subsection \<open>Properties of a game\<close>

lemma recorded_pushGradient:
  "recorded k (pushGradient key g entries) =
     (if k = key then recorded k entries @ [g] else recorded k entries)"
  by (induction entries) (auto simp: recorded_def)

lemma recorded_pushGradients:
  "recorded k (pushGradients entries gradients) =
     recorded k entries @ map snd (filter (\<lambda>kg. fst kg = k) gradients)"
proof (induction gradients arbitrary: entries)
  case Nil
  then show ?case by (simp add: pushGradients_def)
next
  case (Cons kg gradients)
  obtain key g where kg: "kg = (key, g)" by (cases kg)
  have "pushGradients entries (kg # gradients) = pushGradients (pushGradient key g entries) gradients"
    by (simp add: pushGradients_def kg)
  then show ?case using Cons.IH[of "pushGradient key g entries"]
    by (auto simp: kg recorded_pushGradient)
qed

lemma filter_key_distinct:
  "distinct (map fst gradients) \<Longrightarrow> k \<in> fst ` set gradients \<Longrightarrow>
     length (filter (\<lambda>kg. fst kg = k) gradients) = 1"
proof (induction gradients)
  case Nil
  then show ?case by simp
next
  case (Cons a gradients)
  show ?case
  proof (cases "fst a = k")
    case True
    with Cons.prems have "k \<notin> fst ` set gradients" by auto
    then have "filter (\<lambda>kg. fst kg = k) gradients = []" by (auto simp: filter_empty_conv)
    with True show ?thesis by simp
  next
    case False
    with Cons show ?thesis by auto
  qed
qed

lemma stateAfter_0: "stateAfter sys policy st 0 = st"
  by (simp add: stateAfter_def)

lemma stateAfter_Suc:
  "stateAfter sys policy st (Suc j) = stateAfter sys policy (snd (episodeStep sys policy st)) j"
  by (simp only: stateAfter_def funpow_Suc_right comp_apply)

lemma doneAt_Suc:
  "doneAt sys policy st (Suc j) = doneAt sys policy (snd (episodeStep sys policy st)) j"
  by (simp add: doneAt_def stateAfter_Suc)

lemma gradientsAt_Suc:
  "gradientsAt sys policy st (Suc j) = gradientsAt sys policy (snd (episodeStep sys policy st)) j"
  by (simp add: gradientsAt_def stateAfter_Suc)

lemma recorded_pushGradients_of:
  "recorded k (pushGradients entries gradients) = recorded k entries @ gradientsOf k gradients"
  by (simp add: recorded_pushGradients gradientsOf_def)

lemma gameLoop_trace:
  "gameLoop sys policy n (s, r, rw, gg, fl) = (s', r', rw', gg', fl') \<Longrightarrow>
     \<exists>m. m \<le> n \<and> (0 < n \<longrightarrow> 0 < m)
        \<and> fl' = fl @ map (doneAt sys policy (s, r)) [0..<m]
        \<and> rw' = rw @ map (\<lambda>j. if doneAt sys policy (s, r) j then 0 else 1) [0..<m]
        \<and> (\<forall>j. Suc j < m \<longrightarrow> \<not> doneAt sys policy (s, r) j)
        \<and> (m < n \<longrightarrow> 0 < m \<and> doneAt sys policy (s, r) (m - 1))
        \<and> (s', r') = stateAfter sys policy (s, r) m
        \<and> (\<forall>k. recorded k gg' =
               recorded k gg @ concat (map (\<lambda>j. gradientsOf k (gradientsAt sys policy (s, r) j)) [0..<m]))"
proof (induction n arbitrary: s r rw gg fl)
  case 0
  then show ?case by (intro exI[of _ 0]) (simp add: stateAfter_0)
next
  case (Suc n)
  obtain gradients action r1 where p: "policy r (sys_getStateTensor sys s) = ((gradients, action), r1)"
    by (metis prod.exhaust)
  obtain d s1 where u: "sys_update sys action s = (d, s1)" by (cases "sys_update sys action s")
  have step: "episodeStep sys policy (s, r) = ((gradients, d), (s1, r1))"
    by (simp add: episodeStep_def p u)
  have d0: "doneAt sys policy (s, r) 0 = d"
    by (simp add: doneAt_def stateAfter_0 step)
  have g0: "gradientsAt sys policy (s, r) 0 = gradients"
    by (simp add: gradientsAt_def stateAfter_0 step)
  have dS: "doneAt sys policy (s, r) (Suc j) = doneAt sys policy (s1, r1) j" for j
    by (simp add: doneAt_Suc step)
  have gS: "gradientsAt sys policy (s, r) (Suc j) = gradientsAt sys policy (s1, r1) j" for j
    by (simp add: gradientsAt_Suc step)
  have sS: "stateAfter sys policy (s, r) (Suc j) = stateAfter sys policy (s1, r1) j" for j
    by (simp add: stateAfter_Suc step)
  show ?case
  proof (cases d)
    case True
    with Suc.prems p u have res: "fl' = fl @ [True]" "rw' = rw @ [0]" "s' = s1" "r' = r1"
      "gg' = pushGradients gg gradients" by simp_all
    show ?thesis
      using res True d0 g0 sS[of 0]
      by (intro exI[of _ 1]) (simp add: stateAfter_0 recorded_pushGradients_of)
  next
    case False
    with Suc.prems p u have
      "gameLoop sys policy n (s1, r1, rw @ [1], pushGradients gg gradients, fl @ [False])
         = (s', r', rw', gg', fl')" by simp
    from Suc.IH[OF this] obtain m where m:
      "m \<le> n" "0 < n \<longrightarrow> 0 < m"
      "fl' = (fl @ [False]) @ map (doneAt sys policy (s1, r1)) [0..<m]"
      "rw' = (rw @ [1]) @ map (\<lambda>j. if doneAt sys policy (s1, r1) j then 0 else 1) [0..<m]"
      "\<forall>j. Suc j < m \<longrightarrow> \<not> doneAt sys policy (s1, r1) j"
      "m < n \<longrightarrow> 0 < m \<and> doneAt sys policy (s1, r1) (m - 1)"
      "(s', r') = stateAfter sys policy (s1, r1) m"
      "\<forall>k. recorded k gg' = recorded k (pushGradients gg gradients)
              @ concat (map (\<lambda>j. gradientsOf k (gradientsAt sys policy (s1, r1) j)) [0..<m])"
      by blast
    have a: "fl' = fl @ map (doneAt sys policy (s, r)) [0..<Suc m]"
      unfolding map_upt_Suc using m(3) False by (simp add: d0 dS)
    have b: "rw' = rw @ map (\<lambda>j. if doneAt sys policy (s, r) j then 0 else 1) [0..<Suc m]"
      unfolding map_upt_Suc using m(4) False by (simp add: d0 dS)
    have c: "\<not> doneAt sys policy (s, r) j" if "Suc j < Suc m" for j
      using that m(5) False by (cases j) (simp_all add: d0 dS)
    have e: "Suc m < Suc n \<longrightarrow> 0 < Suc m \<and> doneAt sys policy (s, r) (Suc m - 1)"
    proof
      assume "Suc m < Suc n"
      with m(6) have "0 < m" "doneAt sys policy (s1, r1) (m - 1)" by simp_all
      then obtain m' where "m = Suc m'" by (cases m) auto
      with \<open>doneAt sys policy (s1, r1) (m - 1)\<close> show "0 < Suc m \<and> doneAt sys policy (s, r) (Suc m - 1)"
        by (simp add: dS)
    qed
    have f: "(s', r') = stateAfter sys policy (s, r) (Suc m)" using m(7) by (simp add: sS)
    have g: "recorded k gg' =
               recorded k gg @ concat (map (\<lambda>j. gradientsOf k (gradientsAt sys policy (s, r) j)) [0..<Suc m])" for k
      unfolding map_upt_Suc using m(8) by (simp add: g0 gS recorded_pushGradients_of)
    show ?thesis
      using m(1) a b c e f g by (intro exI[of _ "Suc m"]) blast
  qed
qed

lemma gradientsOf_distinct:
  "distinct (map fst gradients) \<Longrightarrow> k \<in> fst ` set gradients \<Longrightarrow> length (gradientsOf k gradients) = 1"
  by (simp add: gradientsOf_def filter_key_distinct)

lemma length_concat_ones:
  "(\<And>j. length (f j) = 1) \<Longrightarrow> length (concat (map f [0..<m])) = m"
  by (induction m) simp_all

lemma episodeStep_gradients:
  "fst (fst (episodeStep sys policy st))
     = fst (fst (policy (snd st) (sys_getStateTensor sys (fst st))))"
  by (simp add: episodeStep_def split: prod.splits)

lemma playGame_run:
  "playGame CartPole_System (\<lambda>r obs. (([(''kernel'', [1::real])], 1), r)) 1
      (CartPole_new 0 0 0 0) (\<lambda>n. 1/2)
   = (snd (update 1 (CartPole_new (1/2) (1/2) (1/2) (1/2))), (\<lambda>n. 1/2), [1],
      [(''kernel'', [[1]])], [False])"
  by (simp add: playGame_def CartPole_System_def setRandomState_def update_def Let_def
      CartPole_new_def xAcc_of_def thetaAcc_of_def temp_of_def force_of_def isDone_def
      pushGradients_def)

lemma playGame_done_at_once:
  "playGame \<lparr> sys_setRandomState = (\<lambda>r s. (s, r)), sys_getStateTensor = (\<lambda>s. s),
              sys_update = (\<lambda>a s. (True, s)) \<rparr>
      (\<lambda>r obs. (([(''kernel'', [1::real])], 1), r)) 3 (0::nat) (0::nat)
   = (0, 0, [0], [(''kernel'', [[1]])], [True])"
  by (simp add: playGame_def numeral_3_eq_3 pushGradients_def)

text \<open>
  C3. In every game, let \<open>n\<close> be the number of rewards. The loop took exactly \<open>n\<close>
  steps, at most \<open>maxStepsPerGame\<close>: the system state and random source at the end are
  those after \<open>n\<close> steps. The reward of step \<open>j\<close> is 0 when \<open>update\<close> returned
  done in that step and 1 otherwise. \<open>update\<close> returned done in no step but possibly the
  last, and it did so in the last whenever the game stopped short of the cap, so reaching
  the cap adds no reward of its own. The gradients recorded for a variable are those the
  policy returned for it in the steps \<open>0\<close> to \<open>n - 1\<close>, in this order, so with a
  policy whose gradients are always keyed by the same distinct variables there are \<open>n\<close>
  of them for each variable. With \<open>maxStepsPerGame = 1\<close> there is exactly one reward.
\<close>

theorem playGame_episode:
  assumes "\<And>r obs. map fst (fst (fst (policy r obs))) = vars" and "distinct vars"
  shows "(case playGame sys policy maxStepsPerGame s r of
            (s', r', gameRewards, gameGradients, flags) \<Rightarrow>
              (let st = sys_setRandomState sys r s; n = length gameRewards
               in n \<le> nat maxStepsPerGame
                \<and> flags = map (doneAt sys policy st) [0..<n]
                \<and> gameRewards = map (\<lambda>j. if doneAt sys policy st j then 0 else 1) [0..<n]
                \<and> (\<forall>j. Suc j < n \<longrightarrow> \<not> doneAt sys policy st j)
                \<and> (n < nat maxStepsPerGame \<longrightarrow> 0 < n \<and> doneAt sys policy st (n - 1))
                \<and> (s', r') = stateAfter sys policy st n
                \<and> (\<forall>k. recorded k gameGradients
                         = concat (map (\<lambda>j. gradientsOf k (gradientsAt sys policy st j)) [0..<n]))
                \<and> length flags = n
                \<and> gameRewards = map (\<lambda>d. if d then 0 else 1) flags
                \<and> (\<forall>k \<in> set vars. length (recorded k gameGradients) = n)
                \<and> (maxStepsPerGame = 1 \<longrightarrow> n = 1)))"
proof -
  obtain s0 r0 where init: "sys_setRandomState sys r s = (s0, r0)"
    by (cases "sys_setRandomState sys r s")
  obtain s' r' rw gg fl where run:
    "gameLoop sys policy (nat maxStepsPerGame) (s0, r0, [], [], []) = (s', r', rw, gg, fl)"
    by (metis prod.exhaust)
  have play: "playGame sys policy maxStepsPerGame s r = (s', r', rw, gg, fl)"
    by (simp add: playGame_def init run)
  from gameLoop_trace[OF run] obtain m where m:
    "m \<le> nat maxStepsPerGame" "0 < nat maxStepsPerGame \<longrightarrow> 0 < m"
    "fl = map (doneAt sys policy (s0, r0)) [0..<m]"
    "rw = map (\<lambda>j. if doneAt sys policy (s0, r0) j then 0 else 1) [0..<m]"
    "\<forall>j. Suc j < m \<longrightarrow> \<not> doneAt sys policy (s0, r0) j"
    "m < nat maxStepsPerGame \<longrightarrow> 0 < m \<and> doneAt sys policy (s0, r0) (m - 1)"
    "(s', r') = stateAfter sys policy (s0, r0) m"
    "\<forall>k. recorded k gg = recorded k []
            @ concat (map (\<lambda>j. gradientsOf k (gradientsAt sys policy (s0, r0) j)) [0..<m])"
    by auto
  have n: "length rw = m" by (simp add: m(4))
  have l: "length fl = m" by (simp add: m(3))
  have rf: "rw = map (\<lambda>d. if d then 0 else 1) fl" by (simp add: m(3) m(4))
  have rec: "recorded k gg = concat (map (\<lambda>j. gradientsOf k (gradientsAt sys policy (s0, r0) j)) [0..<m])" for k
    using m(8) by (simp add: recorded_def)
  have g: "length (recorded k gg) = m" if "k \<in> set vars" for k
  proof -
    have "length (gradientsOf k (gradientsAt sys policy (s0, r0) j)) = 1" for j
    proof -
      have "map fst (gradientsAt sys policy (s0, r0) j) = vars"
        unfolding gradientsAt_def episodeStep_gradients by (rule assms(1))
      then show ?thesis
        using assms(2) that by (intro gradientsOf_distinct) (simp_all flip: set_map)
    qed
    then show ?thesis unfolding rec by (rule length_concat_ones)
  qed
  have one: "m = 1" if "maxStepsPerGame = 1"
    using that m(1) m(2) by simp
  show ?thesis
    unfolding play init Let_def prod.case n
    using m(1) m(3) m(4) m(5) m(6) m(7) rec l rf g one by blast
qed

theorem playGame_episode_witness:
  "(case playGame CartPole_System (\<lambda>r obs. (([(''kernel'', [1::real])], 1), r)) 1
           (CartPole_new 0 0 0 0) (\<lambda>n. 1/2) of
      (s', r', gameRewards, gameGradients, flags) \<Rightarrow>
        gameRewards = [1] \<and> flags = [False]
        \<and> \<not> doneAt CartPole_System (\<lambda>r obs. (([(''kernel'', [1::real])], 1), r))
              (sys_setRandomState CartPole_System (\<lambda>n. 1/2) (CartPole_new 0 0 0 0)) 0
        \<and> length (recorded ''kernel'' gameGradients) = length gameRewards)
   \<and> (case playGame \<lparr> sys_setRandomState = (\<lambda>r s. (s, r)), sys_getStateTensor = (\<lambda>s. s),
              sys_update = (\<lambda>a s. (True, s)) \<rparr>
           (\<lambda>r obs. (([(''kernel'', [1::real])], 1), r)) 3 (0::nat) (0::nat) of
      (s', r', gameRewards, gameGradients, flags) \<Rightarrow>
        gameRewards = [0] \<and> flags = [True]
        \<and> doneAt \<lparr> sys_setRandomState = (\<lambda>r s. (s, r)), sys_getStateTensor = (\<lambda>s. s),
              sys_update = (\<lambda>a s. (True, s)) \<rparr>
              (\<lambda>r obs. (([(''kernel'', [1::real])], 1), r)) (0::nat, 0::nat) 0
        \<and> length (recorded ''kernel'' gameGradients) = length gameRewards)
   \<and> distinct [''kernel'']"
proof -
  have h: "map fst (fst (fst ((\<lambda>r obs. (([(''kernel'', [1::real])], 1::real), r)) r obs)))
             = [''kernel'']" for r :: 'a and obs :: 'b
    by simp
  have d: "distinct [''kernel'']" by simp
  note a = playGame_episode[where policy = "\<lambda>r obs. (([(''kernel'', [1::real])], 1), r)"
        and vars = "[''kernel'']" and sys = CartPole_System and maxStepsPerGame = 1
        and s = "CartPole_new 0 0 0 0" and r = "\<lambda>n. 1/2", OF h d]
  note b = playGame_episode[where policy = "\<lambda>r obs. (([(''kernel'', [1::real])], 1), r)"
        and vars = "[''kernel'']"
        and sys = "\<lparr> sys_setRandomState = (\<lambda>r s. (s, r)), sys_getStateTensor = (\<lambda>s. s),
              sys_update = (\<lambda>a s. (True, s)) \<rparr>"
        and maxStepsPerGame = 3 and s = "0::nat" and r = "0::nat", OF h d]
  have a': "\<not> doneAt CartPole_System (\<lambda>r obs. (([(''kernel'', [1::real])], 1), r))
              (sys_setRandomState CartPole_System (\<lambda>n. 1/2) (CartPole_new 0 0 0 0)) 0"
    using a by (simp add: playGame_run Let_def)
  have b': "doneAt \<lparr> sys_setRandomState = (\<lambda>r s. (s, r)), sys_getStateTensor = (\<lambda>s. s),
              sys_update = (\<lambda>a s. (True, s)) \<rparr>
              (\<lambda>r obs. (([(''kernel'', [1::real])], 1), r)) (0::nat, 0::nat) 0"
    using b by (simp add: playGame_done_at_once Let_def)
  show ?thesis
    using a' b' by (simp add: playGame_run playGame_done_at_once recorded_def)
qed

text \<open>
  The outer loop plays \<open>numGames\<close> games this way, and \<open>train\<close> returns the number
  of rewards of each: with one game of at most one step, the list \<open>[1]\<close>.
\<close>

lemma playGame_rewards:
  assumes "playGame sys policy maxStepsPerGame s r = (s', r', rw, gg, fl)"
  shows "length rw \<le> nat maxStepsPerGame \<and> (0 < nat maxStepsPerGame \<longrightarrow> rw \<noteq> [])"
proof -
  obtain s0 r0 where init: "sys_setRandomState sys r s = (s0, r0)"
    by (cases "sys_setRandomState sys r s")
  from assms have
    "gameLoop sys policy (nat maxStepsPerGame) (s0, r0, [], [], []) = (s', r', rw, gg, fl)"
    by (simp add: playGame_def init)
  from gameLoop_trace[OF this] show ?thesis by auto
qed

lemma gamesLoop_rewards:
  "gamesLoop sys policy maxStepsPerGame n (s, r, ag, ar, gs) = (s', r', ag', ar', gs') \<Longrightarrow>
     \<exists>rs. ar' = ar @ rs \<and> gs' = gs @ map length rs \<and> length rs = n
        \<and> (\<forall>rw \<in> set rs. length rw \<le> nat maxStepsPerGame
              \<and> (0 < nat maxStepsPerGame \<longrightarrow> rw \<noteq> []))"
proof (induction n arbitrary: s r ag ar gs)
  case 0
  then show ?case by simp
next
  case (Suc n)
  obtain s1 r1 rw gg fl where play:
    "playGame sys policy maxStepsPerGame s r = (s1, r1, rw, gg, fl)"
    by (metis prod.exhaust)
  with Suc.prems have
    "gamesLoop sys policy maxStepsPerGame n
       (s1, r1, pushGradients ag gg, ar @ [rw], gs @ [length rw]) = (s', r', ag', ar', gs')"
    by simp
  from Suc.IH[OF this] obtain rs where rs:
    "ar' = (ar @ [rw]) @ rs" "gs' = (gs @ [length rw]) @ map length rs" "length rs = n"
    "\<forall>rw \<in> set rs. length rw \<le> nat maxStepsPerGame \<and> (0 < nat maxStepsPerGame \<longrightarrow> rw \<noteq> [])"
    by blast
  show ?case
    using rs playGame_rewards[OF play] by (intro exI[of _ "rw # rs"]) auto
qed

lemma train_gameSteps:
  "length (snd (train sys policy discountRate numGames maxStepsPerGame s r)) = nat numGames
   \<and> (\<forall>n \<in> set (snd (train sys policy discountRate numGames maxStepsPerGame s r)).
         n \<le> nat maxStepsPerGame \<and> (0 < nat maxStepsPerGame \<longrightarrow> 0 < n))"
proof -
  obtain s' r' ag ar gs where run:
    "gamesLoop sys policy maxStepsPerGame (nat numGames) (s, r, [], [], []) = (s', r', ag, ar, gs)"
    by (metis prod.exhaust)
  from gamesLoop_rewards[OF run] have rs:
    "gs = map length ar" "length ar = nat numGames"
    "\<forall>rw \<in> set ar. length rw \<le> nat maxStepsPerGame \<and> (0 < nat maxStepsPerGame \<longrightarrow> rw \<noteq> [])"
    by auto
  have "snd (train sys policy discountRate numGames maxStepsPerGame s r) = gs"
    by (simp add: train_def run)
  then show ?thesis using rs by auto
qed

lemma train_one_game_one_step:
  "snd (train sys policy discountRate 1 1 s r) = [1]"
proof -
  let ?gs = "snd (train sys policy discountRate 1 1 s r)"
  from train_gameSteps[of sys policy discountRate 1 1 s r]
  have l: "length ?gs = 1" and b: "\<forall>n \<in> set ?gs. n \<le> 1 \<and> 0 < n" by simp_all
  from l obtain n where n: "?gs = [n]" by (cases ?gs) auto
  with b have "n = 1" by auto
  with n show ?thesis by simp
qed

subsection \<open>Properties of the gradient aggregation\<close>

text \<open>
  C8. When every variable has one game of one step and the normalized rewards are one
  game with the single value \<open>a\<close>, the aggregated gradient of every variable is
  \<open>a\<close> times its gradient snapshot.
\<close>

theorem scaleAndAverageGradients_single_step:
  "scaleAndAverageGradients (map (\<lambda>(varName, g). (varName, [[g]])) snapshots) [[a]]
     = Inr (map (\<lambda>(varName, g). (varName, map (\<lambda>v. a * v) g)) snapshots)"
proof (induction snapshots)
  case Nil
  then show ?case by simp
next
  case (Cons p snapshots)
  obtain varName g where p: "p = (varName, g)" by (cases p)
  have "scaleAndAverageVar [[g]] [[a]] = Inr (map (\<lambda>v. a * v) g)"
    by (simp add: scaleAndAverageVar_def mulBroadcast_def mult.commute)
  with Cons show ?case by (simp add: p)
qed

theorem scaleAndAverageGradients_single_step_witness:
  "scaleAndAverageGradients [(''kernel'', [[[2, 3]]]), (''bias'', [[[1]]])] [[5]]
     = Inr [(''kernel'', [10, 15]), (''bias'', [5])]"
  using scaleAndAverageGradients_single_step[of "[(''kernel'', [2, 3]), (''bias'', [1])]" 5]
  by simp

subsection \<open>Properties of the validation and of the constructors\<close>

lemma trainClick_checked:
  "trainClick a b c d e = Inr cfg \<Longrightarrow> gt a 0 \<and> gt b 0 \<and> gt c 1 \<and> gt d 0 \<and> lt d 1"
  by (auto simp: trainClick_def split: if_splits)

lemma trainClick_learningRate_ignored:
  "isl (trainClick a b c d e) = isl (trainClick a b c d e')"
  by (simp add: trainClick_def)

text \<open>
  C6. The handler checks the number of iterations, the games per iteration, the maximum
  number of steps and the discount rate, and not the learning rate: with the other four
  fields valid, a learning rate of \<open>-1\<close> or \<open>NaN\<close> reaches the optimizer and the
  training loop.
\<close>

theorem trainClick_learningRate_unchecked:
  "trainClick (Fin 20) (Fin 20) (Fin 500) (Fin 0.95) (Fin (- 1))
     = Inr \<lparr> cfg_trainIterations = Fin 20, cfg_gamesPerIteration = Fin 20,
             cfg_maxStepsPerGame = Fin 500, cfg_discountRate = Fin 0.95,
             cfg_learningRate = Fin (- 1) \<rparr>
   \<and> trainClick (Fin 20) (Fin 20) (Fin 500) (Fin 0.95) NaN
     = Inr \<lparr> cfg_trainIterations = Fin 20, cfg_gamesPerIteration = Fin 20,
             cfg_maxStepsPerGame = Fin 500, cfg_discountRate = Fin 0.95,
             cfg_learningRate = NaN \<rparr>"
  by (simp add: trainClick_def)

lemma createPolicyNetwork_object:
  "createPolicyNetwork (ObjectV opts) = Inl UnitsNotPositiveInteger"
  by (simp add: createPolicyNetwork_def dense_def)

lemma SaveablePolicyNetwork_new_never:
  "SaveablePolicyNetwork_new opts \<noteq> Inr net"
  by (simp add: SaveablePolicyNetwork_new_def PolicyNetwork_new_def createPolicyNetwork_object)

lemma PolicyNetwork_new_sizes:
  "PolicyNetwork_new (ArrayV [Fin 8]) =
     Inr (Sequential
       [\<lparr> units = NumberV (Fin 8), activation = Some ''elu'', inputShape = Some [4] \<rparr>,
        \<lparr> units = NumberV (Fin 1), activation = None, inputShape = None \<rparr>])"
  by (simp add: PolicyNetwork_new_def createPolicyNetwork_def dense_def sequential_add_def)

lemma PolicyNetwork_new_empty:
  "PolicyNetwork_new (ArrayV []) = Inl FirstLayerWithoutInputShape"
  by (simp add: PolicyNetwork_new_def createPolicyNetwork_def dense_def sequential_add_def)

lemma PolicyNetwork_new_zero:
  "PolicyNetwork_new (NumberV (Fin 0)) = Inl UnitsNotPositiveInteger"
  "PolicyNetwork_new (NumberV NaN) = Inl UnitsNotPositiveInteger"
  by (simp_all add: PolicyNetwork_new_def createPolicyNetwork_def dense_def)

text \<open>
  C5. Constructing the policy network with neither a saved model nor sizes fails, and so
  does constructing it with both: in the first case no branch of the constructor calls
  \<open>super\<close>, in the second the object that holds the saved model reaches
  \<open>tf.layers.dense\<close> as \<open>units\<close> and is refused. The constructor of
  \<open>PolicyNetwork\<close> itself takes one argument and fails when it is \<open>undefined\<close>.
  In each case the result is an error and no network.
\<close>

theorem SaveablePolicyNetwork_new_fails:
  "SaveablePolicyNetwork_new \<lparr> layersModel = None, sizes = None \<rparr> = Inl SuperNotCalled
   \<and> SaveablePolicyNetwork_new \<lparr> layersModel = Some m, sizes = Some sz \<rparr>
       = Inl UnitsNotPositiveInteger
   \<and> PolicyNetwork_new UndefinedV = Inl UnitsNotPositiveInteger"
  by (simp add: SaveablePolicyNetwork_new_def PolicyNetwork_new_def createPolicyNetwork_def
      dense_def)

lemma sigmoid_bounds: "0 < sigmoid l \<and> sigmoid l < 1"
proof -
  have e: "0 < exp (- l)" by simp
  then have p: "0 < 1 + exp (- l)" by (simp add: add_pos_pos)
  have "1 < 1 + exp (- l)" using e by simp
  then have "1 / (1 + exp (- l)) < 1" using p by (simp add: divide_less_eq)
  with p show ?thesis by (simp add: sigmoid_def)
qed

text \<open>
  C7, as stated, fails at a sampled action of 1: the label handed to the loss is 0.
\<close>

theorem lossArguments_labels_counterexample:
  "fst (fst (lossArguments (\<lambda>i. [0]) (\<lambda>ps. [1]) ())) = [0]
   \<and> snd (lossArguments (\<lambda>i. [0]) (\<lambda>ps. [1]) ()) = [1]
   \<and> fst (fst (lossArguments (\<lambda>i. [0]) (\<lambda>ps. [1]) ()))
       \<noteq> snd (lossArguments (\<lambda>i. [0]) (\<lambda>ps. [1]) ())"
  by (simp add: lossArguments_def getLogitsAndActions_def)

text \<open>
  C7, amended. The sampler is handed, for each observation, the row of the sigmoid of the
  logit and one minus it, two numbers strictly between 0 and 1: outcome 0 has the sigmoid
  of the logit as its probability. The label handed to the cross-entropy loss for each
  observation is 1 minus the sampled action: it is 1 exactly when the sampled action is
  0. The loss whose gradient is taken is the cross-entropy of these labels and the logits.
\<close>

theorem lossArguments_labels:
  "(case getLogitsAndActions predict multinomial inputs of
      (logits, actions) \<Rightarrow>
        logits = predict inputs
        \<and> actions = multinomial (map (\<lambda>l. [sigmoid l, 1 - sigmoid l]) logits)
        \<and> (\<forall>l \<in> set logits. 0 < sigmoid l \<and> sigmoid l < 1)
        \<and> lossArguments predict multinomial inputs = ((map (\<lambda>a. 1 - a) actions, logits), actions)
        \<and> lossClosure sigmoidCrossEntropy predict multinomial inputs
            = sigmoidCrossEntropy (map (\<lambda>a. 1 - a) actions) logits
        \<and> (\<forall>i < length actions.
              fst (fst (lossArguments predict multinomial inputs)) ! i = 1 - actions ! i
              \<and> (fst (fst (lossArguments predict multinomial inputs)) ! i = 1) = (actions ! i = 0)))"
  by (simp add: lossArguments_def lossClosure_def getLogitsAndActions_def Let_def comp_def
      sigmoid_bounds)

theorem lossArguments_labels_witness:
  "getLogitsAndActions (\<lambda>i. [0, 0]) (map (\<lambda>row. if hd row < last row then 1 else 0)) ()
     = ([0, 0], [0, 0])
   \<and> lossArguments (\<lambda>i. [0, 0]) (map (\<lambda>row. if hd row < last row then 1 else 0)) ()
     = (([1, 1], [0, 0]), [0, 0])
   \<and> lossClosure (\<lambda>labels logits. sum_list labels) (\<lambda>i. [0, 0])
       (map (\<lambda>row. if hd row < last row then 1 else 0)) () = 2"
proof -
  have s0: "sigmoid 0 = 1/2" by (simp add: sigmoid_def)
  have g: "getLogitsAndActions (\<lambda>i. [0, 0]) (map (\<lambda>row. if hd row < last row then 1 else 0)) ()
     = ([0, 0], [0, 0])"
    by (simp add: getLogitsAndActions_def Let_def s0)
  from lossArguments_labels[where predict = "\<lambda>i. [0, 0]"
        and multinomial = "map (\<lambda>row. if hd row < last row then 1 else 0)"
        and inputs = "()" and sigmoidCrossEntropy = "\<lambda>labels logits. sum_list labels"]
  have t: "lossArguments (\<lambda>i. [0, 0]) (map (\<lambda>row. if hd row < last row then 1 else 0)) ()
             = ((map (\<lambda>a. 1 - a) [0, 0], [0, 0]), [0, 0])
         \<and> lossClosure (\<lambda>labels logits. sum_list labels) (\<lambda>i. [0, 0])
             (map (\<lambda>row. if hd row < last row then 1 else 0)) ()
             = sum_list (map (\<lambda>a. 1 - a) [0, 0])"
    unfolding g prod.case by blast
  from t have a: "lossArguments (\<lambda>i. [0, 0]) (map (\<lambda>row. if hd row < last row then 1 else 0)) ()
     = (([1, 1], [0, 0]), [0, 0])" by simp
  from t have b: "lossClosure (\<lambda>labels logits. sum_list labels) (\<lambda>i. [0, 0])
       (map (\<lambda>row. if hd row < last row then 1 else 0)) () = 2" by simp
  from g a b show ?thesis by blast
qed

end
